theory Spec2Isabelle
  imports Complex_Main "HOL-Library.Multiset" "HOL-Library.Log_Nat"
begin

section \<open>JavaScript values as produced by \<^verbatim>\<open>JSON.parse\<close>\<close>

text \<open>
  The dashboard (\<^verbatim>\<open>src/dashboard/src/app/page.tsx\<close>) reads one string from
  \<^verbatim>\<open>localStorage\<close>, hands it to \<^verbatim>\<open>JSON.parse\<close> and inspects the resulting
  value with \<^verbatim>\<open>Array.isArray\<close>, \<^verbatim>\<open>typeof\<close>, \<^verbatim>\<open>in\<close>, \<^verbatim>\<open>String\<close> and
  \<^verbatim>\<open>Boolean\<close>. The values are modelled as a datatype; a number is a finite value or one
  of the two infinities (\<^verbatim>\<open>JSON.parse("1e999")\<close>), never NaN; negative zero is zero.
  An object is an association list read with \<open>map_of\<close>.
\<close>

datatype js_number = Finite rat | PosInfinity | NegInfinity

datatype js_value =
    JUndefined
  | JNull
  | JBool bool
  | JNumber js_number
  | JString string
  | JArray "js_value list"
  | JObject "(string \<times> js_value) list"

datatype js_error = SyntaxError | TypeError | SecurityError | QuotaExceededError

text \<open>\<^verbatim>\<open>Boolean(v)\<close> and the truthiness test of \<^verbatim>\<open>!v\<close>, \<^verbatim>\<open>v && ...\<close>.\<close>

fun js_Boolean :: "js_value \<Rightarrow> bool" where
  "js_Boolean JUndefined = False"
| "js_Boolean JNull = False"
| "js_Boolean (JBool b) = b"
| "js_Boolean (JNumber n) = (n \<noteq> Finite 0)"
| "js_Boolean (JString s) = (s \<noteq> [])"
| "js_Boolean (JArray xs) = True"
| "js_Boolean (JObject kvs) = True"

fun js_typeof :: "js_value \<Rightarrow> string" where
  "js_typeof JUndefined = ''undefined''"
| "js_typeof JNull = ''object''"
| "js_typeof (JBool b) = ''boolean''"
| "js_typeof (JNumber n) = ''number''"
| "js_typeof (JString s) = ''string''"
| "js_typeof (JArray xs) = ''object''"
| "js_typeof (JObject kvs) = ''object''"

fun Array_isArray :: "js_value \<Rightarrow> bool" where
  "Array_isArray (JArray xs) = True"
| "Array_isArray v = False"

text \<open>
  Property read \<^verbatim>\<open>v.key\<close> and property test \<^verbatim>\<open>"key" in v\<close>, for the keys the
  source uses (\<^verbatim>\<open>id\<close>, \<^verbatim>\<open>completed\<close>, \<^verbatim>\<open>tasks\<close>, \<^verbatim>\<open>hydrated\<close>): none of them is an
  array index, \<^verbatim>\<open>length\<close>, or a property of \<^verbatim>\<open>Object.prototype\<close> or
  \<^verbatim>\<open>Array.prototype\<close>, so only an object's own entries count. The source applies both
  to objects and arrays only.
\<close>

fun js_get :: "js_value \<Rightarrow> string \<Rightarrow> js_value" where
  "js_get (JObject kvs) key = (case map_of kvs key of None \<Rightarrow> JUndefined | Some v \<Rightarrow> v)"
| "js_get v key = JUndefined"

fun js_in :: "string \<Rightarrow> js_value \<Rightarrow> bool" where
  "js_in key (JObject kvs) = (map_of kvs key \<noteq> None)"
| "js_in key v = False"

text \<open>
  \<^verbatim>\<open>String(v)\<close>. The text of a number is the platform's (\<open>ns\<close>). An array is its
  elements joined by commas, \<^verbatim>\<open>null\<close> and \<^verbatim>\<open>undefined\<close> elements giving the empty
  string. A plain object gives \<^verbatim>\<open>[object Object]\<close> through the inherited
  \<^verbatim>\<open>toString\<close>; an object with an entry of its own named \<^verbatim>\<open>toString\<close> (which is
  data, so not callable) is left with the inherited \<^verbatim>\<open>valueOf\<close>, which returns the
  object itself, and the conversion throws a TypeError.
\<close>

fun js_String :: "(js_number \<Rightarrow> string) \<Rightarrow> js_value \<Rightarrow> js_error + string"
  and Array_join :: "(js_number \<Rightarrow> string) \<Rightarrow> js_value list \<Rightarrow> js_error + string"
where
  "js_String ns JUndefined = Inr ''undefined''"
| "js_String ns JNull = Inr ''null''"
| "js_String ns (JBool b) = Inr (if b then ''true'' else ''false'')"
| "js_String ns (JNumber n) = Inr (ns n)"
| "js_String ns (JString s) = Inr s"
| "js_String ns (JArray xs) = Array_join ns xs"
| "js_String ns (JObject kvs) =
     (if map_of kvs ''toString'' \<noteq> None then Inl TypeError else Inr ''[object Object]'')"
| "Array_join ns [] = Inr []"
| "Array_join ns (x # xs) =
     (case (if x = JUndefined \<or> x = JNull then Inr [] else js_String ns x) of
        Inl e \<Rightarrow> Inl e
      | Inr s \<Rightarrow>
          (if xs = [] then Inr s
           else (case Array_join ns xs of Inl e \<Rightarrow> Inl e | Inr r \<Rightarrow> Inr (s @ '','' @ r))))"

text \<open>\<^verbatim>\<open>xs.map(f)\<close> with a callback that may throw: the first exception leaves the loop.\<close>

fun Array_map :: "('a \<Rightarrow> js_error + 'b) \<Rightarrow> 'a list \<Rightarrow> js_error + 'b list" where
  "Array_map f [] = Inr []"
| "Array_map f (x # xs) =
     (case f x of
        Inl e \<Rightarrow> Inl e
      | Inr y \<Rightarrow> (case Array_map f xs of Inl e \<Rightarrow> Inl e | Inr ys \<Rightarrow> Inr (y # ys)))"

text \<open>\<^verbatim>\<open>new Map(entries)\<close>: entries are set in order, a later key replacing an earlier one.\<close>

definition new_Map :: "(string \<times> js_value) list \<Rightarrow> (string \<rightharpoonup> js_value)" where
  "new_Map entries = foldl (\<lambda>m (k, v). m(k \<mapsto> v)) Map.empty entries"

text \<open>\<^verbatim>\<open>m.get(k)\<close>: the value, or \<^verbatim>\<open>undefined\<close>.\<close>

definition Map_get :: "(string \<rightharpoonup> js_value) \<Rightarrow> string \<Rightarrow> js_value" where
  "Map_get m k = (case m k of None \<Rightarrow> JUndefined | Some v \<Rightarrow> v)"

section \<open>Tasks and the catalog\<close>

datatype block = Morning | Midday | Afternoon | Evening

record RoutineTask =
  task_id :: string
  title :: string
  time :: string
  block :: block
  details :: string
  completed :: bool

record RoutineState =
  tasks :: "RoutineTask list"
  hydrated :: bool

definition STORAGE_KEY :: string where
  "STORAGE_KEY = ''minimal-routine-dashboard''"

definition defaultTasks :: "RoutineTask list" where
  "defaultTasks =
    [ \<lparr>task_id = ''hydrate'', title = ''Hydrate and stretch'', time = ''06:30'',
        block = Morning, details = ''500ml water + 5 minute mobility routine'',
        completed = False\<rparr>,
      \<lparr>task_id = ''plan'', title = ''Plan the day'', time = ''07:15'',
        block = Morning, details = ''Review calendar and set top 3 priorities'',
        completed = False\<rparr>,
      \<lparr>task_id = ''deep-work'', title = ''Deep work sprint'', time = ''09:00'',
        block = Midday, details = ''90 minute focus block with notifications silenced'',
        completed = False\<rparr>,
      \<lparr>task_id = ''movement'', title = ''Movement break'', time = ''12:30'',
        block = Midday, details = ''20 minute walk and light stretching'',
        completed = False\<rparr>,
      \<lparr>task_id = ''check-in'', title = ''Quick inbox sweep'', time = ''15:00'',
        block = Afternoon, details = ''Respond to priority messages only'',
        completed = False\<rparr>,
      \<lparr>task_id = ''wrap-up'', title = ''Daily review'', time = ''17:30'',
        block = Afternoon, details = ''Log progress and queue tasks for tomorrow'',
        completed = False\<rparr>,
      \<lparr>task_id = ''unwind'', title = ''Unwind routine'', time = ''20:30'',
        block = Evening, details = ''Digital sunset, 30 minutes reading'',
        completed = False\<rparr> ]"

definition createFallbackState :: RoutineState where
  "createFallbackState = \<lparr>tasks = map (\<lambda>task. task) defaultTasks, hydrated = False\<rparr>"

section \<open>Reconciliation: \<^verbatim>\<open>mergeTaskState\<close>\<close>

text \<open>
  The callback of the first \<^verbatim>\<open>.map\<close>: an entry \<^verbatim>\<open>[String(item.id), item]\<close> for an
  object that has an \<^verbatim>\<open>id\<close>, \<^verbatim>\<open>null\<close> (here \<open>None\<close>) for anything else.
\<close>

definition stored_entry ::
  "(js_number \<Rightarrow> string) \<Rightarrow> js_value \<Rightarrow> js_error + (string \<times> js_value) option" where
  "stored_entry ns item =
     (if js_Boolean item \<and> js_typeof item = ''object'' \<and> js_in ''id'' item
      then (case js_String ns (js_get item ''id'') of
              Inl e \<Rightarrow> Inl e
            | Inr k \<Rightarrow> Inr (Some (k, item)))
      else Inr None)"

text \<open>\<^verbatim>\<open>.filter(Boolean)\<close> on the entries: the \<^verbatim>\<open>null\<close>s go, the pairs stay.\<close>

definition filter_Boolean :: "'a option list \<Rightarrow> 'a list" where
  "filter_Boolean xs = List.map_filter (\<lambda>x. x) xs"

definition merge_task :: "(string \<rightharpoonup> js_value) \<Rightarrow> RoutineTask \<Rightarrow> RoutineTask" where
  "merge_task storedById task =
     (let candidate = Map_get storedById (task_id task)
      in if \<not> js_Boolean candidate then task
         else task\<lparr>completed := js_Boolean (js_get candidate ''completed'')\<rparr>)"

definition mergeTaskState ::
  "(js_number \<Rightarrow> string) \<Rightarrow> js_value \<Rightarrow> js_error + RoutineTask list" where
  "mergeTaskState ns storedTasks =
     (case storedTasks of
        JArray items \<Rightarrow>
          (case Array_map (stored_entry ns) items of
             Inl e \<Rightarrow> Inl e
           | Inr entries \<Rightarrow>
               Inr (map (merge_task (new_Map (filter_Boolean entries))) defaultTasks))
      | _ \<Rightarrow> Inr defaultTasks)"

section \<open>Loading: \<^verbatim>\<open>loadRoutineState\<close>\<close>

text \<open>
  What the page finds when it starts: no \<^verbatim>\<open>window\<close> at all (pre-rendering), or a
  window whose \<^verbatim>\<open>localStorage\<close> either throws on access or is a store from keys to
  strings.
\<close>

datatype environment = NoWindow | Window "js_error + (string \<rightharpoonup> string)"

text \<open>
  The body of the \<^verbatim>\<open>try\<close> block: \<open>Inl\<close> is an exception, \<open>Inr (Some s)\<close> a
  \<^verbatim>\<open>return s\<close> inside the block, \<open>Inr None\<close> the block running to its end.
  \<open>parse\<close> is the platform's \<^verbatim>\<open>JSON.parse\<close>.
\<close>

definition load_try ::
  "(string \<Rightarrow> js_error + js_value) \<Rightarrow> (js_number \<Rightarrow> string) \<Rightarrow>
   js_error + (string \<rightharpoonup> string) \<Rightarrow> js_error + RoutineState option" where
  "load_try parse ns localStorage =
     (case localStorage of
        Inl e \<Rightarrow> Inl e
      | Inr store \<Rightarrow>
          (case store STORAGE_KEY of
             None \<Rightarrow> Inr (Some createFallbackState)
           | Some stored \<Rightarrow>
               if stored = [] then Inr (Some createFallbackState)
               else
                 (case parse stored of
                    Inl e \<Rightarrow> Inl e
                  | Inr parsed \<Rightarrow>
                      if Array_isArray parsed then
                        (case mergeTaskState ns parsed of
                           Inl e \<Rightarrow> Inl e
                         | Inr ts \<Rightarrow> Inr (Some \<lparr>tasks = ts, hydrated = False\<rparr>))
                      else if js_Boolean parsed \<and> js_typeof parsed = ''object''
                              \<and> js_in ''tasks'' parsed
                              \<and> Array_isArray (js_get parsed ''tasks'') then
                        (case mergeTaskState ns (js_get parsed ''tasks'') of
                           Inl e \<Rightarrow> Inl e
                         | Inr ts \<Rightarrow>
                             Inr (Some \<lparr>tasks = ts,
                                        hydrated = js_Boolean (js_get parsed ''hydrated'')\<rparr>))
                      else Inr None)))"

definition loadRoutineState ::
  "(string \<Rightarrow> js_error + js_value) \<Rightarrow> (js_number \<Rightarrow> string) \<Rightarrow> environment \<Rightarrow> RoutineState" where
  "loadRoutineState parse ns env =
     (case env of
        NoWindow \<Rightarrow> createFallbackState
      | Window localStorage \<Rightarrow>
          (case load_try parse ns localStorage of
             Inr (Some s) \<Rightarrow> s
           | Inr None \<Rightarrow> createFallbackState
           | Inl e \<Rightarrow> createFallbackState))"

section \<open>Saving: the effect that writes the snapshot\<close>

text \<open>
  The objects handed to \<^verbatim>\<open>JSON.stringify\<close>: a task with its six fields, and the
  snapshot \<^verbatim>\<open>{ tasks, hydrated }\<close>.
\<close>

fun block_name :: "block \<Rightarrow> string" where
  "block_name Morning = ''Morning''"
| "block_name Midday = ''Midday''"
| "block_name Afternoon = ''Afternoon''"
| "block_name Evening = ''Evening''"

definition task_value :: "RoutineTask \<Rightarrow> js_value" where
  "task_value task =
     JObject [(''id'', JString (task_id task)), (''title'', JString (title task)),
              (''time'', JString (time task)), (''block'', JString (block_name (block task))),
              (''details'', JString (details task)), (''completed'', JBool (completed task))]"

definition snapshot_value :: "RoutineTask list \<Rightarrow> bool \<Rightarrow> js_value" where
  "snapshot_value ts h = JObject [(''tasks'', JArray (map task_value ts)), (''hydrated'', JBool h)]"

text \<open>
  The effect of \<^verbatim>\<open>useEffect\<close>: without a window it returns at once; otherwise the
  payload is written to the slot. The effect has no \<^verbatim>\<open>try\<close>: a storage that throws on
  access makes the effect throw (\<open>Inl\<close>), and so does \<^verbatim>\<open>setItem\<close> when the storage
  has no room for the payload. \<open>stringify\<close> is the platform's \<^verbatim>\<open>JSON.stringify\<close>;
  \<open>has_room store payload\<close> tells whether the storage, holding \<open>store\<close>, takes the
  payload.
\<close>

definition saveRoutineState ::
  "((string \<rightharpoonup> string) \<Rightarrow> string \<Rightarrow> bool) \<Rightarrow> (js_value \<Rightarrow> string) \<Rightarrow>
   RoutineTask list \<Rightarrow> bool \<Rightarrow> environment \<Rightarrow> js_error + environment" where
  "saveRoutineState has_room stringify ts h env =
     (case env of
        NoWindow \<Rightarrow> Inr NoWindow
      | Window (Inl e) \<Rightarrow> Inl e
      | Window (Inr store) \<Rightarrow>
          (let payload = stringify (snapshot_value ts h)
           in if has_room store payload
              then Inr (Window (Inr (store(STORAGE_KEY \<mapsto> payload))))
              else Inl QuotaExceededError))"

section \<open>Toggling a task\<close>

definition toggleTask :: "string \<Rightarrow> RoutineTask list \<Rightarrow> RoutineTask list" where
  "toggleTask i prev =
     map (\<lambda>task. if task_id task = i then task\<lparr>completed := \<not> completed task\<rparr> else task) prev"

section \<open>Derived values\<close>

subsection \<open>\<^verbatim>\<open>parseMinutes\<close> and \<^verbatim>\<open>upcoming\<close>\<close>

text \<open>\<^verbatim>\<open>s.split(sep)\<close> for a one-character separator.\<close>

fun String_split :: "char \<Rightarrow> string \<Rightarrow> string list" where
  "String_split sep [] = [[]]"
| "String_split sep (c # cs) =
     (if c = sep then [] # String_split sep cs
      else (case String_split sep cs of
              [] \<Rightarrow> [[c]]
            | p # ps \<Rightarrow> (c # p) # ps))"

text \<open>
  \<^verbatim>\<open>Number(s)\<close> on the strings the model covers: a non-empty run of decimal digits
  whose value is below \<open>2^53\<close>, which is then a double exactly. \<open>None\<close> stands for every
  other string (signs, blanks, fractions, exponents, hexadecimal, text giving NaN): the
  model says nothing about them.
\<close>

definition digit_value :: "char \<Rightarrow> int" where
  "digit_value c = of_char c - 48"

definition is_digit :: "char \<Rightarrow> bool" where
  "is_digit c = (48 \<le> (of_char c :: nat) \<and> (of_char c :: nat) \<le> 57)"

definition decimal_value :: "string \<Rightarrow> int" where
  "decimal_value s = foldl (\<lambda>acc c. 10 * acc + digit_value c) 0 s"

definition Number_digits :: "string \<Rightarrow> int option" where
  "Number_digits s =
     (if s \<noteq> [] \<and> list_all is_digit s \<and> decimal_value s < 2 ^ 53
      then Some (decimal_value s) else None)"

text \<open>
  \<^verbatim>\<open>const [hours, minutes] = time.split(":").map(Number); return hours * 60 + minutes\<close>.
  With both parts covered and the result below \<open>2^53\<close> the double arithmetic is exact.
  A missing second part (\<^verbatim>\<open>undefined\<close>, giving NaN) is \<open>None\<close> as well.
\<close>

definition parseMinutes :: "string \<Rightarrow> int option" where
  "parseMinutes t =
     (case map Number_digits (String_split (CHR '':'') t) of
        Some hours # Some minutes # rest \<Rightarrow>
          (if hours * 60 + minutes < 2 ^ 53 then Some (hours * 60 + minutes) else None)
      | _ \<Rightarrow> None)"

text \<open>
  \<^verbatim>\<open>xs.sort(cmp)\<close>. ECMAScript requires the sort to be stable and, for a comparator
  that is a consistent ordering, to return the elements in that order; the result is then
  the same for every conforming engine. An insertion sort from the right stands for it.
\<close>

fun sort_insert :: "('a \<Rightarrow> 'a \<Rightarrow> int) \<Rightarrow> 'a \<Rightarrow> 'a list \<Rightarrow> 'a list" where
  "sort_insert cmp x [] = [x]"
| "sort_insert cmp x (y # ys) =
     (if cmp x y \<le> 0 then x # y # ys else y # sort_insert cmp x ys)"

definition Array_sort :: "('a \<Rightarrow> 'a \<Rightarrow> int) \<Rightarrow> 'a list \<Rightarrow> 'a list" where
  "Array_sort cmp xs = foldr (sort_insert cmp) xs []"

text \<open>
  \<^verbatim>\<open>[...tasks].filter(t => !t.completed).sort((a, b) => parseMinutes(a.time) -
  parseMinutes(b.time)).slice(0, 3)\<close>. The result is \<open>None\<close> when the time of a task that
  reaches the sort is outside what \<open>parseMinutes\<close> covers (the comparator then yields
  NaN and the order depends on the engine).
\<close>

definition upcoming :: "RoutineTask list \<Rightarrow> RoutineTask list option" where
  "upcoming ts =
     (let pending = filter (\<lambda>task. \<not> completed task) ts
      in if list_all (\<lambda>task. parseMinutes (time task) \<noteq> None) pending
         then Some (take 3
                (Array_sort (\<lambda>a b. the (parseMinutes (time a))
                                     - the (parseMinutes (time b))) pending))
         else None)"

subsection \<open>\<^verbatim>\<open>completionRate\<close> and \<^verbatim>\<open>trend\<close>\<close>

text \<open>
  JavaScript numbers are IEEE-754 doubles: the result of a division or a multiplication is
  the exact result rounded to the nearest value with a 53-bit significand, ties to the
  even significand. \<open>to_double\<close> is that rounding on the rationals, for values in the
  normal range (all that occurs here: quotients \<open>c / n\<close> with \<open>c \<le> n\<close> and their
  hundredfold). \<open>double_exponent x\<close> is the \<open>e\<close> with \<open>2^e \<le> x < 2^(e+1)\<close>.
\<close>

definition pow2 :: "int \<Rightarrow> rat" where
  "pow2 k = (if 0 \<le> k then 2 ^ nat k else 1 / 2 ^ nat (- k))"

definition double_exponent :: "rat \<Rightarrow> int" where
  "double_exponent x =
     (let (p, q) = quotient_of x; k = bitlen p - bitlen q
      in if pow2 k \<le> x then k else k - 1)"

definition round_half_even :: "rat \<Rightarrow> int" where
  "round_half_even x =
     (let f = \<lfloor>x\<rfloor>; r = x - of_int f
      in if r < 1 / 2 then f else if 1 / 2 < r then f + 1 else if even f then f else f + 1)"

definition to_double :: "rat \<Rightarrow> rat" where
  "to_double x =
     (if x = 0 then 0
      else (let e = double_exponent \<bar>x\<bar> - 52
            in sgn x * of_int (round_half_even (\<bar>x\<bar> / pow2 e)) * pow2 e))"

text \<open>\<^verbatim>\<open>Math.round(x)\<close>: the nearest integer, a tie going up.\<close>

definition Math_round :: "rat \<Rightarrow> int" where
  "Math_round x = \<lfloor>x + 1 / 2\<rfloor>"

definition completionRate :: "RoutineTask list \<Rightarrow> int" where
  "completionRate ts =
     (let totalCompleted = length (filter (\<lambda>task. completed task) ts);
          totalTasks = length ts
      in if totalTasks = 0 then 0
         else Math_round (to_double (to_double (of_nat totalCompleted / of_nat totalTasks) * 100)))"

definition trend :: "int \<Rightarrow> string" where
  "trend rate = (if rate \<ge> 80 then ''On track'' else ''Keep going'')"

section \<open>Auxiliary notions for stating the properties\<close>

text \<open>
  The definitions of this section are not functions of the source; the theorems below are
  stated with them.

  \<open>parser_of\<close> is a parser known at finitely many stored contents, each with the value
  it parses to, and rejecting every other content. It stands for \<^verbatim>\<open>JSON.parse\<close>
  where a concrete stored content is run through the loader.
\<close>

definition parser_of :: "(string \<times> js_value) list \<Rightarrow> string \<Rightarrow> js_error + js_value" where
  "parser_of table s = (case map_of table s of None \<Rightarrow> Inl SyntaxError | Some v \<Rightarrow> Inr v)"

text \<open>
  The key under which a stored item enters the lookup (the text of its \<^verbatim>\<open>id\<close>), if it
  enters at all; and the fragment the lookup holds for a key: the last item of the stored
  array with that key.
\<close>

definition entry_key :: "(js_number \<Rightarrow> string) \<Rightarrow> js_value \<Rightarrow> string option" where
  "entry_key ns item = (case stored_entry ns item of Inr (Some (k, v)) \<Rightarrow> Some k | _ \<Rightarrow> None)"

definition last_stored ::
  "(js_number \<Rightarrow> string) \<Rightarrow> js_value list \<Rightarrow> string \<Rightarrow> js_value option" where
  "last_stored ns items k = find (\<lambda>item. entry_key ns item = Some k) (rev items)"

text \<open>
  The merge in the words of the specification: the catalog in its order, each task taking
  the truth value of the \<^verbatim>\<open>completed\<close> field of its stored fragment, and staying as
  it is without one.
\<close>

definition reconciled :: "(js_number \<Rightarrow> string) \<Rightarrow> js_value list \<Rightarrow> RoutineTask list" where
  "reconciled ns items =
     map (\<lambda>task. case last_stored ns items (task_id task) of
                   None \<Rightarrow> task
                 | Some fragment \<Rightarrow> task\<lparr>completed := js_Boolean (js_get fragment ''completed'')\<rparr>)
         defaultTasks"

text \<open>A stored item whose key is the id of a catalog task.\<close>

definition catalog_entry :: "(js_number \<Rightarrow> string) \<Rightarrow> js_value \<Rightarrow> bool" where
  "catalog_entry ns item =
     (case entry_key ns item of None \<Rightarrow> False | Some k \<Rightarrow> k \<in> set (map task_id defaultTasks))"

text \<open>
  A parsed value that is no snapshot: neither an array nor an object whose \<^verbatim>\<open>tasks\<close>
  is an array.
\<close>

fun no_snapshot :: "js_value \<Rightarrow> bool" where
  "no_snapshot (JArray xs) = False"
| "no_snapshot (JObject kvs) = (\<not> Array_isArray (js_get (JObject kvs) ''tasks''))"
| "no_snapshot v = True"

text \<open>
  A serializer for values whose strings need no escaping. It stands for
  \<^verbatim>\<open>JSON.stringify\<close> where a concrete state is saved and loaded again; the catalog's
  strings are of that kind.
\<close>

fun json_text :: "(js_number \<Rightarrow> string) \<Rightarrow> js_value \<Rightarrow> string"
  and json_elements :: "(js_number \<Rightarrow> string) \<Rightarrow> js_value list \<Rightarrow> string"
  and json_members :: "(js_number \<Rightarrow> string) \<Rightarrow> (string \<times> js_value) list \<Rightarrow> string"
where
  "json_text ns JUndefined = ''null''"
| "json_text ns JNull = ''null''"
| "json_text ns (JBool b) = (if b then ''true'' else ''false'')"
| "json_text ns (JNumber n) = ns n"
| "json_text ns (JString s) = [CHR 0x22] @ s @ [CHR 0x22]"
| "json_text ns (JArray xs) = ''['' @ json_elements ns xs @ '']''"
| "json_text ns (JObject kvs) = ''{'' @ json_members ns kvs @ ''}''"
| "json_elements ns [] = []"
| "json_elements ns (x # xs) =
     json_text ns x @ (if xs = [] then [] else '','' @ json_elements ns xs)"
| "json_members ns [] = []"
| "json_members ns ((k, v) # kvs) =
     [CHR 0x22] @ k @ [CHR 0x22] @ '':'' @ json_text ns v
       @ (if kvs = [] then [] else '','' @ json_members ns kvs)"

section \<open>Properties of the lookup and of the merge\<close>

lemma new_Map_foldl:
  "foldl (\<lambda>m (k, v). m(k \<mapsto> v)) m entries k =
     (case map_of (rev entries) k of None \<Rightarrow> m k | Some v \<Rightarrow> Some v)"
  by (induction entries arbitrary: m) (auto simp: map_add_def split: option.splits)

lemma new_Map_eq: "new_Map entries = map_of (rev entries)"
  by (rule ext) (simp add: new_Map_def new_Map_foldl split: option.splits)

lemma Array_map_ok:
  "(\<forall>x\<in>set xs. \<not> isl (f x)) \<Longrightarrow> Array_map f xs = Inr (map (\<lambda>x. projr (f x)) xs)"
  by (induction xs) (auto split: sum.splits)

lemma Array_map_Inl:
  "Array_map f xs = Inl e \<Longrightarrow> \<exists>x\<in>set xs. f x = Inl e"
  by (induction xs) (auto split: sum.splits)

lemma Array_map_throws:
  "x \<in> set xs \<Longrightarrow> isl (f x) \<Longrightarrow> isl (Array_map f xs)"
  by (induction xs) (auto split: sum.splits)

lemma js_String_error:
  "js_String ns v = Inl e \<Longrightarrow> e = TypeError"
  "Array_join ns vs = Inl e \<Longrightarrow> e = TypeError"
  by (induction ns v and ns vs rule: js_String_Array_join.induct)
     (auto split: if_splits sum.splits)

lemma stored_entry_error: "stored_entry ns item = Inl e \<Longrightarrow> e = TypeError"
  by (auto simp: stored_entry_def split: if_splits sum.splits dest: js_String_error)

lemma stored_entry_Some:
  "stored_entry ns item = Inr (Some (k, v)) \<Longrightarrow> v = item \<and> js_Boolean item"
  by (auto simp: stored_entry_def split: if_splits sum.splits)

lemma filter_Boolean_simps:
  "filter_Boolean [] = []"
  "filter_Boolean (None # xs) = filter_Boolean xs"
  "filter_Boolean (Some p # xs) = p # filter_Boolean xs"
  by (simp_all add: filter_Boolean_def List.map_filter_simps)

lemma find_append_cases:
  "find P (xs @ ys) = (case find P xs of None \<Rightarrow> find P ys | Some x \<Rightarrow> Some x)"
  by (induction xs) auto

lemma find_SomeD: "find P xs = Some x \<Longrightarrow> P x \<and> x \<in> set xs"
  by (induction xs) (auto split: if_splits)

lemma lookup_last_stored:
  assumes "\<forall>item\<in>set items. \<not> isl (stored_entry ns item)"
  shows "map_of (rev (filter_Boolean (map (\<lambda>x. projr (stored_entry ns x)) items))) k
         = last_stored ns items k"
  using assms
proof (induction items)
  case Nil
  then show ?case by (simp add: last_stored_def filter_Boolean_simps)
next
  case (Cons item items)
  let ?fb = "filter_Boolean (map (\<lambda>x. projr (stored_entry ns x)) items)"
  from Cons have IH: "map_of (rev ?fb) k = last_stored ns items k" by simp
  from Cons.prems obtain r where r: "stored_entry ns item = Inr r"
    by (cases "stored_entry ns item") auto
  show ?case
  proof (cases r)
    case None
    with r have key: "entry_key ns item = None" by (simp add: entry_key_def)
    from r None have "filter_Boolean (map (\<lambda>x. projr (stored_entry ns x)) (item # items)) = ?fb"
      by (simp add: filter_Boolean_simps)
    moreover have "last_stored ns (item # items) k = last_stored ns items k"
      by (simp add: last_stored_def find_append_cases key split: option.splits)
    ultimately show ?thesis using IH by simp
  next
    case (Some p)
    obtain k' v where p: "p = (k', v)" by (cases p)
    with Some r have v: "v = item" using stored_entry_Some by blast
    from r Some p have key: "entry_key ns item = Some k'" by (simp add: entry_key_def)
    from r Some p v
    have "filter_Boolean (map (\<lambda>x. projr (stored_entry ns x)) (item # items)) = (k', item) # ?fb"
      by (simp add: filter_Boolean_simps)
    then have "map_of (rev (filter_Boolean (map (\<lambda>x. projr (stored_entry ns x)) (item # items)))) k
        = (case map_of (rev ?fb) k of None \<Rightarrow> (if k = k' then Some item else None) | Some x \<Rightarrow> Some x)"
      by (simp add: map_add_def split: option.splits)
    moreover have "last_stored ns (item # items) k
        = (case last_stored ns items k of None \<Rightarrow> (if k = k' then Some item else None) | Some x \<Rightarrow> Some x)"
      by (auto simp add: last_stored_def find_append_cases key split: option.splits)
    ultimately show ?thesis using IH by simp
  qed
qed

lemma last_stored_SomeD:
  assumes "last_stored ns items k = Some fragment"
  shows "entry_key ns fragment = Some k" "fragment \<in> set items"
  using find_SomeD [of "\<lambda>item. entry_key ns item = Some k" "rev items" fragment] assms
  by (simp_all add: last_stored_def)

lemma entry_key_truthy: "entry_key ns item = Some k \<Longrightarrow> js_Boolean item"
  by (simp add: entry_key_def stored_entry_def split: if_splits sum.splits)

lemma last_stored_truthy:
  "last_stored ns items k = Some fragment \<Longrightarrow> js_Boolean fragment"
  using last_stored_SomeD(1) entry_key_truthy by blast

lemma mergeTaskState_ok:
  assumes "\<forall>item\<in>set items. \<not> isl (stored_entry ns item)"
  shows "mergeTaskState ns (JArray items) = Inr (reconciled ns items)"
proof -
  have "merge_task (last_stored ns items) task =
        (case last_stored ns items (task_id task) of
           None \<Rightarrow> task
         | Some fragment \<Rightarrow> task\<lparr>completed := js_Boolean (js_get fragment ''completed'')\<rparr>)"
    for task
    by (cases "last_stored ns items (task_id task)")
       (simp_all add: merge_task_def Map_get_def Let_def last_stored_truthy)
  moreover have "new_Map (filter_Boolean (map (\<lambda>x. projr (stored_entry ns x)) items))
        = last_stored ns items"
    unfolding new_Map_eq using lookup_last_stored [OF assms] by blast
  ultimately show ?thesis
    by (simp add: mergeTaskState_def Array_map_ok [OF assms] reconciled_def)
qed

lemma mergeTaskState_throws:
  assumes "item \<in> set items" "isl (stored_entry ns item)"
  shows "mergeTaskState ns (JArray items) = Inl TypeError"
proof -
  from Array_map_throws [of item items "stored_entry ns"] assms
  obtain e where e: "Array_map (stored_entry ns) items = Inl e"
    by (cases "Array_map (stored_entry ns) items") auto
  then have "e = TypeError"
    using Array_map_Inl stored_entry_error by blast
  with e show ?thesis by (simp add: mergeTaskState_def)
qed


lemma createFallbackState_eq: "createFallbackState = \<lparr>tasks = defaultTasks, hydrated = False\<rparr>"
  by (simp add: createFallbackState_def)

lemma load_array:
  assumes "store STORAGE_KEY = Some stored" "stored \<noteq> []" "parse stored = Inr (JArray items)"
  shows "loadRoutineState parse ns (Window (Inr store)) =
         (case mergeTaskState ns (JArray items) of
            Inl e \<Rightarrow> createFallbackState
          | Inr ts \<Rightarrow> \<lparr>tasks = ts, hydrated = False\<rparr>)"
  using assms by (simp add: loadRoutineState_def load_try_def split: sum.splits)

lemma load_object:
  assumes "store STORAGE_KEY = Some stored" "stored \<noteq> []" "parse stored = Inr (JObject kvs)"
    and "map_of kvs ''tasks'' = Some (JArray items)"
  shows "loadRoutineState parse ns (Window (Inr store)) =
         (case mergeTaskState ns (JArray items) of
            Inl e \<Rightarrow> createFallbackState
          | Inr ts \<Rightarrow> \<lparr>tasks = ts, hydrated = js_Boolean (js_get (JObject kvs) ''hydrated'')\<rparr>)"
  using assms by (simp add: loadRoutineState_def load_try_def split: sum.splits)

lemma load_no_snapshot:
  assumes "store STORAGE_KEY = Some stored" "parse stored = Inr v" "no_snapshot v"
  shows "loadRoutineState parse ns (Window (Inr store)) = createFallbackState"
  using assms
  by (cases v) (auto simp: loadRoutineState_def load_try_def split: sum.splits option.splits)

lemma merge_task_static:
  "(merge_task m task)\<lparr>completed := False\<rparr> = task\<lparr>completed := False\<rparr>"
  by (simp add: merge_task_def Let_def)

lemma defaultTasks_incomplete: "map (\<lambda>task. task\<lparr>completed := False\<rparr>) defaultTasks = defaultTasks"
  by (simp add: defaultTasks_def)

lemma mergeTaskState_static:
  assumes "mergeTaskState ns v = Inr ts"
  shows "map (\<lambda>task. task\<lparr>completed := False\<rparr>) ts = defaultTasks"
proof -
  have "map (\<lambda>task. task\<lparr>completed := False\<rparr>) (map (merge_task m) defaultTasks) = defaultTasks" for m
    using defaultTasks_incomplete by (simp add: merge_task_static o_def)
  with assms defaultTasks_incomplete show ?thesis
    by (auto simp: mergeTaskState_def split: js_value.splits sum.splits)
qed

lemma load_try_static:
  assumes "load_try parse ns ls = Inr (Some s)"
  shows "map (\<lambda>task. task\<lparr>completed := False\<rparr>) (tasks s) = defaultTasks"
  using assms defaultTasks_incomplete
  by (auto simp: load_try_def createFallbackState_eq
      split: sum.splits option.splits if_splits dest: mergeTaskState_static)

lemma loadRoutineState_static:
  "map (\<lambda>task. task\<lparr>completed := False\<rparr>) (tasks (loadRoutineState parse ns env)) = defaultTasks"
  using defaultTasks_incomplete
  by (auto simp: loadRoutineState_def createFallbackState_eq
      split: environment.splits sum.splits option.splits dest: load_try_static)

lemma static_ids:
  assumes "map (\<lambda>task. task\<lparr>completed := False\<rparr>) ts = map (\<lambda>task. task\<lparr>completed := False\<rparr>) us"
  shows "map task_id ts = map task_id us"
proof -
  have "map task_id ts = map task_id (map (\<lambda>task. task\<lparr>completed := False\<rparr>) ts)"
    by (simp add: o_def)
  also have "\<dots> = map task_id (map (\<lambda>task. task\<lparr>completed := False\<rparr>) us)"
    using assms by simp
  also have "\<dots> = map task_id us" by (simp add: o_def)
  finally show ?thesis .
qed

lemma toggleTask_ids: "map task_id (toggleTask i ts) = map task_id ts"
  by (simp add: toggleTask_def o_def)

lemma mergeTaskState_InrD:
  assumes "mergeTaskState ns (JArray items) = Inr merged"
  shows "\<forall>item\<in>set items. \<not> isl (stored_entry ns item)" "merged = reconciled ns items"
proof -
  show a: "\<forall>item\<in>set items. \<not> isl (stored_entry ns item)"
    using assms mergeTaskState_throws [of _ items ns] by fastforce
  from mergeTaskState_ok [OF a] assms show "merged = reconciled ns items" by simp
qed

lemma no_throw_iff:
  "(\<forall>item\<in>set items. stored_entry ns item \<noteq> Inl TypeError)
   = (\<forall>item\<in>set items. \<not> isl (stored_entry ns item))"
  using stored_entry_error by (metis isl_def sum.disc(1))

lemma find_filter_keep:
  assumes "\<And>x. P x \<Longrightarrow> Q x"
  shows "find P (filter Q xs) = find P xs"
  using assms by (induction xs) auto

lemma last_stored_catalog:
  assumes "k \<in> set (map task_id defaultTasks)"
  shows "last_stored ns (filter (catalog_entry ns) items) k = last_stored ns items k"
proof -
  have "entry_key ns x = Some k \<Longrightarrow> catalog_entry ns x" for x
    using assms by (simp add: catalog_entry_def)
  then have "find (\<lambda>item. entry_key ns item = Some k) (filter (catalog_entry ns) (rev items))
      = find (\<lambda>item. entry_key ns item = Some k) (rev items)"
    by (rule find_filter_keep)
  then show ?thesis
    by (simp add: last_stored_def rev_filter)
qed

lemma reconciled_catalog:
  "reconciled ns (filter (catalog_entry ns) items) = reconciled ns items"
  unfolding reconciled_def
  by (rule map_cong [OF refl]) (simp add: last_stored_catalog)

lemma reconciled_ids: "map task_id (reconciled ns items) = map task_id defaultTasks"
  unfolding reconciled_def map_map
  by (rule map_cong [OF refl]) (simp split: option.splits)

lemma stored_entry_task: "stored_entry ns (task_value t) = Inr (Some (task_id t, task_value t))"
  by (simp add: stored_entry_def task_value_def)

lemma entry_key_task: "entry_key ns (task_value t) = Some (task_id t)"
  by (simp add: entry_key_def stored_entry_task)

lemma completed_task_value: "js_get (task_value t) ''completed'' = JBool (completed t)"
  by (simp add: task_value_def)

lemma find_task_value:
  "find (\<lambda>item. entry_key ns item = Some k) (map task_value xs)
   = map_option task_value (find (\<lambda>t. task_id t = k) xs)"
  by (induction xs) (simp_all add: entry_key_task)

lemma find_distinct_id:
  assumes "distinct (map task_id xs)" "t \<in> set xs"
  shows "find (\<lambda>u. task_id u = task_id t) xs = Some t"
  using assms by (induction xs) force+

lemma last_stored_task:
  assumes "distinct (map task_id ts)" "t \<in> set ts"
  shows "last_stored ns (map task_value ts) (task_id t) = Some (task_value t)"
proof -
  have "distinct (map task_id (rev ts))" "t \<in> set (rev ts)"
    using assms by (simp_all add: rev_map [symmetric])
  then have "find (\<lambda>u. task_id u = task_id t) (rev ts) = Some t"
    by (rule find_distinct_id)
  then show ?thesis
    by (simp add: last_stored_def rev_map find_task_value)
qed

lemma static_nth:
  assumes "map (\<lambda>task. task\<lparr>completed := False\<rparr>) ts = defaultTasks" "i < length ts"
  shows "(defaultTasks ! i)\<lparr>completed := completed (ts ! i)\<rparr> = ts ! i"
proof -
  from assms have "(ts ! i)\<lparr>completed := False\<rparr> = defaultTasks ! i"
    by (metis nth_map)
  then have "(defaultTasks ! i)\<lparr>completed := completed (ts ! i)\<rparr>
             = ((ts ! i)\<lparr>completed := False\<rparr>)\<lparr>completed := completed (ts ! i)\<rparr>"
    by simp
  then show ?thesis by simp
qed

lemma distinct_catalog_ids: "distinct (map task_id defaultTasks)"
  by (simp add: defaultTasks_def)

lemma reconciled_own_snapshot:
  assumes "map (\<lambda>task. task\<lparr>completed := False\<rparr>) ts = defaultTasks"
  shows "reconciled ns (map task_value ts) = ts"
proof (rule nth_equalityI)
  have len: "length ts = length defaultTasks"
    using assms by (metis length_map)
  then show "length (reconciled ns (map task_value ts)) = length ts"
    by (simp add: reconciled_def)
  fix i assume "i < length (reconciled ns (map task_value ts))"
  then have i: "i < length ts" using len by (simp add: reconciled_def)
  have ids: "map task_id ts = map task_id defaultTasks"
    using assms defaultTasks_incomplete static_ids by metis
  then have "map task_id ts ! i = map task_id defaultTasks ! i" by simp
  with i len have id: "task_id (defaultTasks ! i) = task_id (ts ! i)" by simp
  have "distinct (map task_id ts)" using ids distinct_catalog_ids by simp
  moreover have "ts ! i \<in> set ts" using i by simp
  ultimately have "last_stored ns (map task_value ts) (task_id (ts ! i)) = Some (task_value (ts ! i))"
    by (rule last_stored_task)
  with i len id have "reconciled ns (map task_value ts) ! i
      = (defaultTasks ! i)\<lparr>completed := completed (ts ! i)\<rparr>"
    by (simp add: reconciled_def completed_task_value)
  then show "reconciled ns (map task_value ts) ! i = ts ! i"
    using static_nth [OF assms i] by simp
qed

section \<open>Properties of loading\<close>

text \<open>
  Claim C3. The ids of the tasks in the application state are always the ids of the
  catalog, in the catalog's order: whatever is stored, \<open>loadRoutineState\<close> returns tasks
  with exactly these ids, and \<open>toggleTask\<close> keeps the ids of the list it is given, so
  that no operation adds or removes a task.
\<close>

theorem task_ids_invariant:
  "map task_id (tasks (loadRoutineState parse ns env)) = map task_id defaultTasks
   \<and> task_id ` set (tasks (loadRoutineState parse ns env)) = task_id ` set defaultTasks
   \<and> map task_id (toggleTask i ts) = map task_id ts
   \<and> task_id ` set (toggleTask i ts) = task_id ` set ts"
proof -
  have l: "map task_id (tasks (loadRoutineState parse ns env)) = map task_id defaultTasks"
    using loadRoutineState_static [of parse ns env] defaultTasks_incomplete static_ids by metis
  have t: "map task_id (toggleTask i ts) = map task_id ts" by (rule toggleTask_ids)
  from l have "set (map task_id (tasks (loadRoutineState parse ns env))) = set (map task_id defaultTasks)"
    by (rule arg_cong)
  moreover from t have "set (map task_id (toggleTask i ts)) = set (map task_id ts)"
    by (rule arg_cong)
  ultimately show ?thesis using l t unfolding set_map by blast
qed

text \<open>
  Claim C2. When there is no window, when the storage cannot be read, when nothing or the
  empty string is stored, when the stored content does not parse, or when it parses to a
  value that is no snapshot (\<^verbatim>\<open>null\<close>, a number, a string, a boolean, an object whose
  \<^verbatim>\<open>tasks\<close> is not an array), \<open>loadRoutineState\<close> returns the default catalog, every
  task incomplete, with \<open>hydrated = False\<close>. The function is total: every exception of the
  source is a branch of \<open>load_try\<close> that ends in the fallback state.
\<close>

theorem loadRoutineState_fallback:
  assumes "env = NoWindow
         \<or> env = Window (Inl e)
         \<or> env = Window (Inr store) \<and>
             (store STORAGE_KEY = None
              \<or> store STORAGE_KEY = Some stored \<and>
                  (stored = [] \<or> parse stored = Inl e' \<or> parse stored = Inr v \<and> no_snapshot v))"
  shows "loadRoutineState parse ns env = \<lparr>tasks = defaultTasks, hydrated = False\<rparr>
       \<and> list_all (\<lambda>task. \<not> completed task) defaultTasks"
proof -
  have "list_all (\<lambda>task. \<not> completed task) defaultTasks"
    by (simp add: defaultTasks_def)
  moreover have "loadRoutineState parse ns env = createFallbackState"
    using assms load_no_snapshot [of store stored parse v ns]
    by (auto simp: loadRoutineState_def load_try_def)
  ultimately show ?thesis by (simp add: createFallbackState_eq)
qed

theorem loadRoutineState_fallback_witness:
  \<open>parser_of [(''{"tasks":"not-an-array"}'', JObject [(''tasks'', JString ''not-an-array'')])]
      ''{"tasks":"not-an-array"}'' = Inr (JObject [(''tasks'', JString ''not-an-array'')])
   \<and> no_snapshot (JObject [(''tasks'', JString ''not-an-array'')])
   \<and> loadRoutineState
        (parser_of [(''{"tasks":"not-an-array"}'', JObject [(''tasks'', JString ''not-an-array'')])])
        (\<lambda>n. ''0'')
        (Window (Inr [STORAGE_KEY \<mapsto> ''{"tasks":"not-an-array"}'']))
      = \<lparr>tasks = defaultTasks, hydrated = False\<rparr>\<close>
  using loadRoutineState_fallback
    [of "Window (Inr [STORAGE_KEY \<mapsto> ''{\"tasks\":\"not-an-array\"}''])" SyntaxError
        "[STORAGE_KEY \<mapsto> ''{\"tasks\":\"not-an-array\"}'']" "''{\"tasks\":\"not-an-array\"}''"
        "parser_of [(''{\"tasks\":\"not-an-array\"}'', JObject [(''tasks'', JString ''not-an-array'')])]"
        SyntaxError "JObject [(''tasks'', JString ''not-an-array'')]" "\<lambda>n. ''0''"]
  by (simp add: parser_of_def)

text \<open>
  Claim C1, as amended. Let the stored content parse to an array of items, or to an object
  whose \<^verbatim>\<open>tasks\<close> is such an array, and let no item's \<^verbatim>\<open>id\<close> fail to convert to
  a string. Then \<open>loadRoutineState\<close> returns the catalog's tasks in the catalog's order,
  each with the truth value of the \<^verbatim>\<open>completed\<close> field of the last stored item under
  its id, and unchanged (so incomplete) when there is none; the items whose key is not a
  catalog id can be removed from the stored array without changing the result.
\<close>

theorem loadRoutineState_reconciles:
  assumes "store STORAGE_KEY = Some stored" and "stored \<noteq> []"
    and "parse stored = Inr (JArray items)
         \<or> parse stored = Inr (JObject kvs) \<and> map_of kvs ''tasks'' = Some (JArray items)"
    and "\<forall>item\<in>set items. stored_entry ns item \<noteq> Inl TypeError"
  shows "tasks (loadRoutineState parse ns (Window (Inr store))) = reconciled ns items
       \<and> reconciled ns items = reconciled ns (filter (catalog_entry ns) items)
       \<and> map task_id (reconciled ns items) = map task_id defaultTasks"
proof -
  from assms(4) have ok: "mergeTaskState ns (JArray items) = Inr (reconciled ns items)"
    by (simp only: no_throw_iff mergeTaskState_ok)
  from assms(3) have "tasks (loadRoutineState parse ns (Window (Inr store))) = reconciled ns items"
  proof
    assume "parse stored = Inr (JArray items)"
    with load_array [of store stored parse items ns] assms(1,2) ok show ?thesis by simp
  next
    assume "parse stored = Inr (JObject kvs) \<and> map_of kvs ''tasks'' = Some (JArray items)"
    then have "parse stored = Inr (JObject kvs)" "map_of kvs ''tasks'' = Some (JArray items)"
      by simp_all
    with load_object [of store stored parse kvs items ns] assms(1,2) ok show ?thesis by simp
  qed
  then show ?thesis by (simp add: reconciled_catalog reconciled_ids)
qed

theorem loadRoutineState_reconciles_witness:
  \<open>[STORAGE_KEY \<mapsto> ''[{"id":"plan","completed":true},{"id":"ghost","completed":true}]''] STORAGE_KEY
      = Some ''[{"id":"plan","completed":true},{"id":"ghost","completed":true}]''
   \<and> stored_entry (\<lambda>n. ''0'') (JObject [(''id'', JString ''plan''), (''completed'', JBool True)])
       \<noteq> Inl TypeError
   \<and> stored_entry (\<lambda>n. ''0'') (JObject [(''id'', JString ''ghost''), (''completed'', JBool True)])
       \<noteq> Inl TypeError
   \<and> tasks (loadRoutineState
        (parser_of [(''[{"id":"plan","completed":true},{"id":"ghost","completed":true}]'',
           JArray [JObject [(''id'', JString ''plan''), (''completed'', JBool True)],
                   JObject [(''id'', JString ''ghost''), (''completed'', JBool True)]])])
        (\<lambda>n. ''0'')
        (Window (Inr [STORAGE_KEY \<mapsto> ''[{"id":"plan","completed":true},{"id":"ghost","completed":true}]''])))
      = reconciled (\<lambda>n. ''0'')
          [JObject [(''id'', JString ''plan''), (''completed'', JBool True)],
           JObject [(''id'', JString ''ghost''), (''completed'', JBool True)]]
   \<and> reconciled (\<lambda>n. ''0'')
          [JObject [(''id'', JString ''plan''), (''completed'', JBool True)],
           JObject [(''id'', JString ''ghost''), (''completed'', JBool True)]]
      = reconciled (\<lambda>n. ''0'') [JObject [(''id'', JString ''plan''), (''completed'', JBool True)]]
   \<and> map completed (reconciled (\<lambda>n. ''0'')
          [JObject [(''id'', JString ''plan''), (''completed'', JBool True)],
           JObject [(''id'', JString ''ghost''), (''completed'', JBool True)]])
      = [False, True, False, False, False, False, False]\<close>
proof -
  let ?t = \<open>''[{"id":"plan","completed":true},{"id":"ghost","completed":true}]''\<close>
  let ?plan = "JObject [(''id'', JString ''plan''), (''completed'', JBool True)]"
  let ?ghost = "JObject [(''id'', JString ''ghost''), (''completed'', JBool True)]"
  have a: "[STORAGE_KEY \<mapsto> ?t] STORAGE_KEY = Some ?t" by simp
  have b: "?t \<noteq> []" by simp
  have c: "parser_of [(?t, JArray [?plan, ?ghost])] ?t = Inr (JArray [?plan, ?ghost])
     \<or> parser_of [(?t, JArray [?plan, ?ghost])] ?t = Inr (JObject [])
        \<and> map_of [] ''tasks'' = Some (JArray [?plan, ?ghost])"
    by (simp add: parser_of_def)
  have d: "\<forall>item\<in>set [?plan, ?ghost]. stored_entry (\<lambda>n. ''0'') item \<noteq> Inl TypeError"
    by (simp add: stored_entry_def)
  have f: "filter (catalog_entry (\<lambda>n. ''0'')) [?plan, ?ghost] = [?plan]"
    by (simp add: catalog_entry_def entry_key_def stored_entry_def defaultTasks_def)
  have g: "map completed (reconciled (\<lambda>n. ''0'') [?plan])
      = [False, True, False, False, False, False, False]"
    by (simp add: reconciled_def last_stored_def entry_key_def stored_entry_def defaultTasks_def)
  from loadRoutineState_reconciles
    [where store = "[STORAGE_KEY \<mapsto> ?t]" and stored = ?t
       and parse = "parser_of [(?t, JArray [?plan, ?ghost])]" and items = "[?plan, ?ghost]"
       and kvs = "[]" and ns = "\<lambda>n. ''0''", OF a b c d] a d f g
  show ?thesis by simp
qed

text \<open>
  The claim as it was stated fails: an item whose \<^verbatim>\<open>id\<close> is the object
  \<^verbatim>\<open>{"toString":1}\<close>, which is no catalog id, makes \<^verbatim>\<open>String(item.id)\<close> throw;
  the exception is caught in \<open>loadRoutineState\<close>, and the stored flag of
  \<^verbatim>\<open>plan\<close> is lost.
\<close>

theorem unknown_id_resets_counterexample:
  \<open>map completed (tasks (loadRoutineState
        (parser_of
          [(''[{"id":"plan","completed":true}]'',
            JArray [JObject [(''id'', JString ''plan''), (''completed'', JBool True)]]),
           (''[{"id":"plan","completed":true},{"id":{"toString":1}}]'',
            JArray [JObject [(''id'', JString ''plan''), (''completed'', JBool True)],
                    JObject [(''id'', JObject [(''toString'', JNumber (Finite 1))])]])])
        (\<lambda>n. ''1'')
        (Window (Inr [STORAGE_KEY \<mapsto> ''[{"id":"plan","completed":true}]'']))))
     = [False, True, False, False, False, False, False]
   \<and> map completed (tasks (loadRoutineState
        (parser_of
          [(''[{"id":"plan","completed":true}]'',
            JArray [JObject [(''id'', JString ''plan''), (''completed'', JBool True)]]),
           (''[{"id":"plan","completed":true},{"id":{"toString":1}}]'',
            JArray [JObject [(''id'', JString ''plan''), (''completed'', JBool True)],
                    JObject [(''id'', JObject [(''toString'', JNumber (Finite 1))])]])])
        (\<lambda>n. ''1'')
        (Window (Inr [STORAGE_KEY \<mapsto> ''[{"id":"plan","completed":true},{"id":{"toString":1}}]'']))))
     = [False, False, False, False, False, False, False]\<close>
  by (simp add: loadRoutineState_def load_try_def parser_of_def mergeTaskState_def
      stored_entry_def new_Map_def filter_Boolean_def List.map_filter_simps merge_task_def
      Map_get_def defaultTasks_def createFallbackState_def STORAGE_KEY_def)

text \<open>
  Claim C4, as amended. Where the merge succeeds, the task of the catalog at position \<open>i\<close>
  whose id has a stored fragment (the last stored item under that id) is the catalog's task
  with \<open>completed\<close> set to the truth value of the fragment's \<^verbatim>\<open>completed\<close> field: a
  boolean is used as it is; an absent field, \<^verbatim>\<open>null\<close>, zero and the empty string give
  \<open>False\<close>; every other value that is not a boolean (a non-empty string, a non-zero
  number, an array, an object) gives \<open>True\<close>.
\<close>

theorem stored_completed_coercion:
  assumes "mergeTaskState ns (JArray items) = Inr merged"
    and "i < length defaultTasks"
    and "last_stored ns items (task_id (defaultTasks ! i)) = Some fragment"
  shows "merged ! i = (defaultTasks ! i)\<lparr>completed := js_Boolean (js_get fragment ''completed'')\<rparr>
       \<and> (js_get fragment ''completed'' = JBool b \<longrightarrow> completed (merged ! i) = b)
       \<and> (js_get fragment ''completed'' \<in> {JUndefined, JNull, JNumber (Finite 0), JString []}
            \<longrightarrow> \<not> completed (merged ! i))
       \<and> ((\<forall>c. js_get fragment ''completed'' \<noteq> JBool c)
            \<and> js_get fragment ''completed'' \<notin> {JUndefined, JNull, JNumber (Finite 0), JString []}
            \<longrightarrow> completed (merged ! i))"
proof -
  from mergeTaskState_InrD(2) [OF assms(1)] have "merged = reconciled ns items" .
  with assms(2,3)
  have m: "merged ! i = (defaultTasks ! i)\<lparr>completed := js_Boolean (js_get fragment ''completed'')\<rparr>"
    by (simp add: reconciled_def)
  then have c: "completed (merged ! i) = js_Boolean (js_get fragment ''completed'')" by simp
  show ?thesis
    unfolding c using m by (cases "js_get fragment ''completed''") auto
qed

theorem stored_completed_coercion_witness:
  "mergeTaskState (\<lambda>n. ''0'')
      (JArray [JObject [(''id'', JString ''plan''), (''completed'', JString ''yes'')]])
     = Inr (toggleTask ''plan'' defaultTasks)
   \<and> 1 < length defaultTasks
   \<and> last_stored (\<lambda>n. ''0'')
        [JObject [(''id'', JString ''plan''), (''completed'', JString ''yes'')]]
        (task_id (defaultTasks ! 1))
       = Some (JObject [(''id'', JString ''plan''), (''completed'', JString ''yes'')])
   \<and> completed (toggleTask ''plan'' defaultTasks ! 1)
   \<and> mergeTaskState (\<lambda>n. ''0'') (JArray [JObject [(''id'', JString ''plan'')]]) = Inr defaultTasks
   \<and> last_stored (\<lambda>n. ''0'') [JObject [(''id'', JString ''plan'')]] (task_id (defaultTasks ! 1))
       = Some (JObject [(''id'', JString ''plan'')])
   \<and> \<not> completed (defaultTasks ! 1)
   \<and> mergeTaskState (\<lambda>n. ''0'')
      (JArray [JObject [(''id'', JString ''plan''), (''completed'', JBool True)]])
     = Inr (toggleTask ''plan'' defaultTasks)
   \<and> last_stored (\<lambda>n. ''0'')
        [JObject [(''id'', JString ''plan''), (''completed'', JBool True)]]
        (task_id (defaultTasks ! 1))
       = Some (JObject [(''id'', JString ''plan''), (''completed'', JBool True)])"
proof -
  let ?ns = "\<lambda>n::js_number. ''0''"
  let ?yes = "JObject [(''id'', JString ''plan''), (''completed'', JString ''yes'')]"
  let ?none = "JObject [(''id'', JString ''plan'')]"
  let ?true = "JObject [(''id'', JString ''plan''), (''completed'', JBool True)]"
  have m1: "mergeTaskState ?ns (JArray [?yes]) = Inr (toggleTask ''plan'' defaultTasks)"
    by (simp add: mergeTaskState_def stored_entry_def new_Map_def filter_Boolean_def
        List.map_filter_simps merge_task_def Map_get_def defaultTasks_def toggleTask_def)
  have m2: "mergeTaskState ?ns (JArray [?none]) = Inr defaultTasks"
    by (simp add: mergeTaskState_def stored_entry_def new_Map_def filter_Boolean_def
        List.map_filter_simps merge_task_def Map_get_def defaultTasks_def)
  have m3: "mergeTaskState ?ns (JArray [?true]) = Inr (toggleTask ''plan'' defaultTasks)"
    by (simp add: mergeTaskState_def stored_entry_def new_Map_def filter_Boolean_def
        List.map_filter_simps merge_task_def Map_get_def defaultTasks_def toggleTask_def)
  have i: "1 < length defaultTasks" by (simp add: defaultTasks_def)
  have l1: "last_stored ?ns [?yes] (task_id (defaultTasks ! 1)) = Some ?yes"
    by (simp add: last_stored_def entry_key_def stored_entry_def defaultTasks_def)
  have l2: "last_stored ?ns [?none] (task_id (defaultTasks ! 1)) = Some ?none"
    by (simp add: last_stored_def entry_key_def stored_entry_def defaultTasks_def)
  have l3: "last_stored ?ns [?true] (task_id (defaultTasks ! 1)) = Some ?true"
    by (simp add: last_stored_def entry_key_def stored_entry_def defaultTasks_def)
  from stored_completed_coercion [where ns = ?ns and items = "[?yes]" and i = 1
      and fragment = ?yes and b = True, OF m1 i l1]
  have "completed (toggleTask ''plan'' defaultTasks ! 1)" by simp
  moreover
  from stored_completed_coercion [where ns = ?ns and items = "[?none]" and i = 1
      and fragment = ?none and b = True, OF m2 i l2]
  have "\<not> completed (defaultTasks ! 1)" by simp
  moreover
  from stored_completed_coercion [where ns = ?ns and items = "[?true]" and i = 1
      and fragment = ?true and b = True, OF m3 i l3]
  have "completed (toggleTask ''plan'' defaultTasks ! 1) = True" by simp
  ultimately show ?thesis using m1 m2 m3 i l1 l2 l3 by blast
qed

text \<open>
  The claim as it was stated fails: the fragment's \<^verbatim>\<open>completed\<close> is the string
  \<^verbatim>\<open>"yes"\<close>, not a boolean, and the merged task is completed.
\<close>

theorem truthy_completed_counterexample:
  \<open>js_get (JObject [(''id'', JString ''plan''), (''completed'', JString ''yes'')]) ''completed''
     = JString ''yes''
   \<and> map completed (tasks (loadRoutineState
        (parser_of [(''[{"id":"plan","completed":"yes"}]'',
            JArray [JObject [(''id'', JString ''plan''), (''completed'', JString ''yes'')]])])
        (\<lambda>n. ''0'')
        (Window (Inr [STORAGE_KEY \<mapsto> ''[{"id":"plan","completed":"yes"}]'']))))
     = [False, True, False, False, False, False, False]\<close>
  by (simp add: loadRoutineState_def load_try_def parser_of_def mergeTaskState_def
      stored_entry_def new_Map_def filter_Boolean_def List.map_filter_simps merge_task_def
      Map_get_def defaultTasks_def createFallbackState_def STORAGE_KEY_def)

text \<open>
  Claim C5. Let \<open>ts\<close> be the catalog with any completed flags and \<open>h\<close> any boolean, and
  let the platform's \<^verbatim>\<open>JSON.parse\<close> give back the snapshot that
  \<^verbatim>\<open>JSON.stringify\<close> wrote (as a non-empty string). Then loading from a storage whose
  slot holds that serialization returns exactly \<open>ts\<close> and \<open>h\<close>. The save effect, when
  the storage takes the write, leaves exactly such a storage, so that loading after any
  completed save returns \<open>ts\<close> and \<open>h\<close>.
\<close>

theorem save_load_roundtrip:
  assumes "map (\<lambda>task. task\<lparr>completed := False\<rparr>) ts = defaultTasks"
    and "stringify (snapshot_value ts h) \<noteq> []"
    and "parse (stringify (snapshot_value ts h)) = Inr (snapshot_value ts h)"
  shows "loadRoutineState parse ns
           (Window (Inr (store(STORAGE_KEY \<mapsto> stringify (snapshot_value ts h)))))
         = \<lparr>tasks = ts, hydrated = h\<rparr>
       \<and> (has_room store (stringify (snapshot_value ts h))
          \<longrightarrow> saveRoutineState has_room stringify ts h (Window (Inr store))
              = Inr (Window (Inr (store(STORAGE_KEY \<mapsto> stringify (snapshot_value ts h))))))
       \<and> (\<forall>env'. saveRoutineState has_room stringify ts h (Window (Inr store)) = Inr env'
          \<longrightarrow> loadRoutineState parse ns env' = \<lparr>tasks = ts, hydrated = h\<rparr>)"
proof -
  let ?payload = "stringify (snapshot_value ts h)"
  let ?store = "store(STORAGE_KEY \<mapsto> ?payload)"
  have no_throw: "\<forall>item\<in>set (map task_value ts). \<not> isl (stored_entry ns item)"
    by (auto simp: stored_entry_task)
  have merged: "mergeTaskState ns (JArray (map task_value ts)) = Inr ts"
    using mergeTaskState_ok [OF no_throw] reconciled_own_snapshot [OF assms(1)] by simp
  have load: "loadRoutineState parse ns (Window (Inr ?store)) = \<lparr>tasks = ts, hydrated = h\<rparr>"
    using load_object [of ?store ?payload parse
        "[(''tasks'', JArray (map task_value ts)), (''hydrated'', JBool h)]" "map task_value ts" ns]
      assms(2,3) merged
    by (simp add: snapshot_value_def)
  have saved: "saveRoutineState has_room stringify ts h (Window (Inr store)) = Inr env'
      \<Longrightarrow> env' = Window (Inr ?store)" for env'
    by (auto simp: saveRoutineState_def Let_def split: if_splits)
  have room: "has_room store ?payload
      \<Longrightarrow> saveRoutineState has_room stringify ts h (Window (Inr store)) = Inr (Window (Inr ?store))"
    by (simp add: saveRoutineState_def)
  from load saved room show ?thesis by blast
qed

theorem save_load_roundtrip_witness:
  "map (\<lambda>task. task\<lparr>completed := False\<rparr>) (toggleTask ''plan'' defaultTasks) = defaultTasks
   \<and> json_text (\<lambda>n. ''0'') (snapshot_value (toggleTask ''plan'' defaultTasks) True) \<noteq> []
   \<and> parser_of [(json_text (\<lambda>n. ''0'') (snapshot_value (toggleTask ''plan'' defaultTasks) True),
                  snapshot_value (toggleTask ''plan'' defaultTasks) True)]
        (json_text (\<lambda>n. ''0'') (snapshot_value (toggleTask ''plan'' defaultTasks) True))
      = Inr (snapshot_value (toggleTask ''plan'' defaultTasks) True)
   \<and> saveRoutineState (\<lambda>store payload. True) (json_text (\<lambda>n. ''0''))
        (toggleTask ''plan'' defaultTasks) True (Window (Inr Map.empty))
      = Inr (Window (Inr [STORAGE_KEY \<mapsto>
           json_text (\<lambda>n. ''0'') (snapshot_value (toggleTask ''plan'' defaultTasks) True)]))
   \<and> loadRoutineState
        (parser_of [(json_text (\<lambda>n. ''0'') (snapshot_value (toggleTask ''plan'' defaultTasks) True),
                     snapshot_value (toggleTask ''plan'' defaultTasks) True)])
        (\<lambda>n. ''0'')
        (Window (Inr [STORAGE_KEY \<mapsto>
           json_text (\<lambda>n. ''0'') (snapshot_value (toggleTask ''plan'' defaultTasks) True)]))
      = \<lparr>tasks = toggleTask ''plan'' defaultTasks, hydrated = True\<rparr>"
proof -
  let ?ts = "toggleTask ''plan'' defaultTasks"
  let ?payload = "json_text (\<lambda>n. ''0'') (snapshot_value ?ts True)"
  let ?parse = "parser_of [(?payload, snapshot_value ?ts True)]"
  have a: "map (\<lambda>task. task\<lparr>completed := False\<rparr>) ?ts = defaultTasks"
    by (simp add: toggleTask_def defaultTasks_def)
  have b: "?payload \<noteq> []"
    by (simp add: snapshot_value_def)
  have c: "?parse ?payload = Inr (snapshot_value ?ts True)"
    by (simp add: parser_of_def)
  note inst = save_load_roundtrip
    [where ts = ?ts and h = True and stringify = "json_text (\<lambda>n. ''0'')" and parse = ?parse
       and ns = "\<lambda>n. ''0''" and store = Map.empty and has_room = "\<lambda>store payload. True",
     OF a b c]
  from inst have "saveRoutineState (\<lambda>store payload. True) (json_text (\<lambda>n. ''0'')) ?ts True
        (Window (Inr Map.empty)) = Inr (Window (Inr [STORAGE_KEY \<mapsto> ?payload]))"
    by blast
  moreover from inst this
  have "loadRoutineState ?parse (\<lambda>n. ''0'') (Window (Inr [STORAGE_KEY \<mapsto> ?payload]))
      = \<lparr>tasks = ?ts, hydrated = True\<rparr>"
    by blast
  ultimately show ?thesis using a b c by blast
qed

text \<open>
  Claim C10. When the stored content parses to a bare array, \<open>loadRoutineState\<close>
  returns \<open>hydrated = False\<close> whatever the array holds; and whenever it returns
  \<open>hydrated = True\<close>, the stored content parsed to an object with a \<^verbatim>\<open>tasks\<close> array
  and a truthy \<^verbatim>\<open>hydrated\<close> field.
\<close>

theorem hydrated_only_from_object:
  "(store STORAGE_KEY = Some stored \<and> parse stored = Inr (JArray items)
      \<longrightarrow> hydrated (loadRoutineState parse ns (Window (Inr store))) = False)
   \<and> (hydrated (loadRoutineState parse ns env)
      \<longrightarrow> (\<exists>store' stored' kvs ts. env = Window (Inr store') \<and> store' STORAGE_KEY = Some stored'
              \<and> parse stored' = Inr (JObject kvs) \<and> map_of kvs ''tasks'' = Some (JArray ts)
              \<and> js_Boolean (js_get (JObject kvs) ''hydrated'')))"
proof (intro conjI impI)
  assume "store STORAGE_KEY = Some stored \<and> parse stored = Inr (JArray items)"
  then show "hydrated (loadRoutineState parse ns (Window (Inr store))) = False"
    by (simp add: loadRoutineState_def load_try_def createFallbackState_eq split: sum.splits)
next
  assume h: "hydrated (loadRoutineState parse ns env)"
  show "\<exists>store' stored' kvs ts. env = Window (Inr store') \<and> store' STORAGE_KEY = Some stored'
              \<and> parse stored' = Inr (JObject kvs) \<and> map_of kvs ''tasks'' = Some (JArray ts)
              \<and> js_Boolean (js_get (JObject kvs) ''hydrated'')"
  proof (cases env)
    case NoWindow
    with h show ?thesis by (simp add: loadRoutineState_def createFallbackState_eq)
  next
    case (Window ls)
    show ?thesis
    proof (cases ls)
      case (Inl e)
      with h Window show ?thesis
        by (simp add: loadRoutineState_def load_try_def createFallbackState_eq)
    next
      case (Inr store')
      show ?thesis
      proof (cases "store' STORAGE_KEY")
        case None
        with h Window Inr show ?thesis
          by (simp add: loadRoutineState_def load_try_def createFallbackState_eq)
      next
        case (Some stored')
        show ?thesis
        proof (cases "parse stored'")
          case (Inl e)
          with h Window Inr Some show ?thesis
            by (simp add: loadRoutineState_def load_try_def createFallbackState_eq split: if_splits)
        next
          case pr: (Inr v)
          show ?thesis
          proof (cases v)
            case (JObject kvs)
            with h Window Inr Some pr show ?thesis
              by (cases "map_of kvs ''tasks''"; cases "js_get (JObject kvs) ''tasks''")
                 (auto simp: loadRoutineState_def load_try_def createFallbackState_eq
                  split: if_splits sum.splits)
          qed (use h Window Inr Some pr in
                \<open>auto simp: loadRoutineState_def load_try_def createFallbackState_eq
                  split: if_splits sum.splits\<close>)
        qed
      qed
    qed
  qed
qed

theorem hydrated_only_from_object_witness:
  \<open>[STORAGE_KEY \<mapsto> ''[{"id":"plan","hydrated":true}]''] STORAGE_KEY
       = Some ''[{"id":"plan","hydrated":true}]''
   \<and> parser_of [(''[{"id":"plan","hydrated":true}]'',
                  JArray [JObject [(''id'', JString ''plan''), (''hydrated'', JBool True)]])]
        ''[{"id":"plan","hydrated":true}]''
       = Inr (JArray [JObject [(''id'', JString ''plan''), (''hydrated'', JBool True)]])
   \<and> hydrated (loadRoutineState
        (parser_of [(''[{"id":"plan","hydrated":true}]'',
                  JArray [JObject [(''id'', JString ''plan''), (''hydrated'', JBool True)]])])
        (\<lambda>n. ''0'')
        (Window (Inr [STORAGE_KEY \<mapsto> ''[{"id":"plan","hydrated":true}]'']))) = False
   \<and> hydrated (loadRoutineState
        (parser_of [(''{"tasks":[],"hydrated":true}'',
                  JObject [(''tasks'', JArray []), (''hydrated'', JBool True)])])
        (\<lambda>n. ''0'')
        (Window (Inr [STORAGE_KEY \<mapsto> ''{"tasks":[],"hydrated":true}''])))
   \<and> (\<exists>store' stored' kvs ts.
         Window (Inr [STORAGE_KEY \<mapsto> ''{"tasks":[],"hydrated":true}'']) = Window (Inr store')
         \<and> store' STORAGE_KEY = Some stored'
         \<and> parser_of [(''{"tasks":[],"hydrated":true}'',
                  JObject [(''tasks'', JArray []), (''hydrated'', JBool True)])] stored'
             = Inr (JObject kvs)
         \<and> map_of kvs ''tasks'' = Some (JArray ts)
         \<and> js_Boolean (js_get (JObject kvs) ''hydrated''))\<close>
proof -
  let ?ns = "\<lambda>n::js_number. ''0''"
  let ?ta = \<open>''[{"id":"plan","hydrated":true}]''\<close>
  let ?va = "JArray [JObject [(''id'', JString ''plan''), (''hydrated'', JBool True)]]"
  let ?to = \<open>''{"tasks":[],"hydrated":true}''\<close>
  let ?vo = "JObject [(''tasks'', JArray []), (''hydrated'', JBool True)]"
  have a: "[STORAGE_KEY \<mapsto> ?ta] STORAGE_KEY = Some ?ta" by simp
  have b: "parser_of [(?ta, ?va)] ?ta = Inr ?va" by (simp add: parser_of_def)
  have h: "hydrated (loadRoutineState (parser_of [(?to, ?vo)]) ?ns (Window (Inr [STORAGE_KEY \<mapsto> ?to])))"
    by (simp add: loadRoutineState_def load_try_def parser_of_def mergeTaskState_def)
  note thm1 = hydrated_only_from_object [where store = "[STORAGE_KEY \<mapsto> ?ta]" and stored = ?ta
      and parse = "parser_of [(?ta, ?va)]" and items = "[JObject [(''id'', JString ''plan''), (''hydrated'', JBool True)]]"
      and ns = ?ns and env = NoWindow]
  note thm2 = hydrated_only_from_object [where store = Map.empty and stored = "[]"
      and parse = "parser_of [(?to, ?vo)]" and items = "[]"
      and ns = ?ns and env = "Window (Inr [STORAGE_KEY \<mapsto> ?to])"]
  from thm1 a b have "hydrated (loadRoutineState (parser_of [(?ta, ?va)]) ?ns
      (Window (Inr [STORAGE_KEY \<mapsto> ?ta]))) = False" by blast
  moreover from thm2 h have "\<exists>store' stored' kvs ts.
         Window (Inr [STORAGE_KEY \<mapsto> ?to]) = Window (Inr store')
         \<and> store' STORAGE_KEY = Some stored'
         \<and> parser_of [(?to, ?vo)] stored' = Inr (JObject kvs)
         \<and> map_of kvs ''tasks'' = Some (JArray ts)
         \<and> js_Boolean (js_get (JObject kvs) ''hydrated'')" by blast
  ultimately show ?thesis using a b h by blast
qed

section \<open>Properties of toggling\<close>

lemma toggleTask_twice: "toggleTask i (toggleTask i ts) = ts"
  by (induction ts) (simp_all add: toggleTask_def)

lemma toggleTask_absent: "i \<notin> task_id ` set ts \<Longrightarrow> toggleTask i ts = ts"
  by (induction ts) (auto simp: toggleTask_def)

text \<open>
  Claim C6. \<open>toggleTask\<close> returns a list of the same length in which every task with
  the given id has its \<open>completed\<close> field inverted and nothing else changed, and every
  other task is as it was; with no task of that id the list is unchanged; toggling twice
  with the same id gives back the original list.
\<close>

theorem toggleTask_frame:
  "length (toggleTask i ts) = length ts
   \<and> (\<forall>n<length ts.
         toggleTask i ts ! n =
           (if task_id (ts ! n) = i then (ts ! n)\<lparr>completed := \<not> completed (ts ! n)\<rparr> else ts ! n))
   \<and> (i \<notin> task_id ` set ts \<longrightarrow> toggleTask i ts = ts)
   \<and> toggleTask i (toggleTask i ts) = ts"
  using toggleTask_twice [of i ts] toggleTask_absent [of i ts]
  by (simp add: toggleTask_def)

theorem toggleTask_frame_witness:
  "(1::nat) < length defaultTasks
   \<and> task_id (defaultTasks ! 1) = ''plan''
   \<and> toggleTask ''plan'' defaultTasks ! 1 = (defaultTasks ! 1)\<lparr>completed := True\<rparr>
   \<and> task_id (defaultTasks ! 0) \<noteq> ''plan''
   \<and> toggleTask ''plan'' defaultTasks ! 0 = defaultTasks ! 0
   \<and> ''ghost'' \<notin> task_id ` set defaultTasks
   \<and> toggleTask ''ghost'' defaultTasks = defaultTasks
   \<and> toggleTask ''plan'' (toggleTask ''plan'' defaultTasks) = defaultTasks"
proof -
  have a: "(1::nat) < length defaultTasks" "(0::nat) < length defaultTasks"
    "task_id (defaultTasks ! 1) = ''plan''" "task_id (defaultTasks ! 0) \<noteq> ''plan''"
    "\<not> completed (defaultTasks ! 1)"
    "''ghost'' \<notin> task_id ` set defaultTasks"
    by (simp_all add: defaultTasks_def)
  from toggleTask_frame [of "''plan''" defaultTasks] a
  have "toggleTask ''plan'' defaultTasks ! 1 = (defaultTasks ! 1)\<lparr>completed := True\<rparr>"
    "toggleTask ''plan'' defaultTasks ! 0 = defaultTasks ! 0"
    "toggleTask ''plan'' (toggleTask ''plan'' defaultTasks) = defaultTasks"
    by simp_all
  moreover from toggleTask_frame [of "''ghost''" defaultTasks] a
  have "toggleTask ''ghost'' defaultTasks = defaultTasks" by blast
  ultimately show ?thesis using a by simp
qed

section \<open>Properties of the derived values\<close>

text \<open>
  Claim C9, as amended. The trend label is one of two fixed values: \<^verbatim>\<open>On track\<close> when
  the rate is at least 80, and \<^verbatim>\<open>Keep going\<close> otherwise.
\<close>

theorem trend_labels:
  "(80 \<le> rate \<longrightarrow> trend rate = ''On track'')
   \<and> (rate < 80 \<longrightarrow> trend rate = ''Keep going'')
   \<and> trend rate \<in> {''On track'', ''Keep going''}"
  by (simp add: trend_def)

theorem trend_labels_witness:
  "(80::int) \<le> 80 \<and> trend 80 = ''On track'' \<and> (79::int) < 80 \<and> trend 79 = ''Keep going''"
  using trend_labels [of 80] trend_labels [of 79] by simp

text \<open>
  The claim as it was stated names the labels \<^verbatim>\<open>on track\<close> and
  \<^verbatim>\<open>needs attention\<close>; the source has neither.
\<close>

theorem trend_labels_counterexample:
  "\<not> (0::int) \<ge> 80 \<and> trend 0 \<noteq> ''needs attention'' \<and> trend 0 = ''Keep going''
   \<and> (100::int) \<ge> 80 \<and> trend 100 \<noteq> ''on track'' \<and> trend 100 = ''On track''"
  by (simp add: trend_def)

subsection \<open>Upcoming tasks\<close>

lemma sort_insert_insort_key:
  assumes "\<forall>b\<in>set ys. (cmp x b \<le> 0) = (f x \<le> f b)"
  shows "sort_insert cmp x ys = insort_key f x ys"
  using assms by (induction ys) simp_all

lemma Array_sort_sort_key:
  assumes "\<forall>a\<in>set xs. \<forall>b\<in>set xs. (cmp a b \<le> 0) = (f a \<le> f b)"
  shows "Array_sort cmp xs = sort_key f xs"
  using assms
proof (induction xs)
  case Nil
  show ?case by (simp add: Array_sort_def)
next
  case (Cons x xs)
  then have IH: "Array_sort cmp xs = sort_key f xs" by simp
  have "sort_insert cmp x (sort_key f xs) = insort_key f x (sort_key f xs)"
    using Cons.prems by (intro sort_insert_insort_key) simp
  with IH show ?case by (simp add: Array_sort_def)
qed

lemma String_split_no_sep:
  "sep \<notin> set s \<Longrightarrow> String_split sep s = [s]"
  by (induction s) auto

lemma String_split_at:
  "sep \<notin> set s \<Longrightarrow> String_split sep (s @ sep # r) = s # String_split sep r"
  by (induction s) auto

lemma digit_not_colon: "is_digit c \<Longrightarrow> c \<noteq> CHR '':''"
  by (auto simp: is_digit_def)

lemma digit_value_range: "is_digit c \<Longrightarrow> 0 \<le> digit_value c \<and> digit_value c \<le> 9"
proof -
  assume d: "is_digit c"
  have "(of_char c :: int) = int (of_char c)" by (simp add: of_nat_of_char)
  with d show ?thesis by (simp add: is_digit_def digit_value_def)
qed

lemma Number_two_digits:
  assumes "is_digit a" "is_digit b"
  shows "Number_digits [a, b] = Some (10 * digit_value a + digit_value b)"
  using assms digit_value_range [of a] digit_value_range [of b]
  by (simp add: Number_digits_def decimal_value_def)

lemma parseMinutes_HH_MM:
  assumes "is_digit h1" "is_digit h2" "is_digit m1" "is_digit m2"
  shows "parseMinutes [h1, h2, CHR '':'', m1, m2]
         = Some ((10 * digit_value h1 + digit_value h2) * 60 + (10 * digit_value m1 + digit_value m2))"
proof -
  have "String_split (CHR '':'') ([h1, h2] @ CHR '':'' # [m1, m2]) = [h1, h2] # String_split (CHR '':'') [m1, m2]"
    using assms by (intro String_split_at) (auto dest: digit_not_colon)
  moreover have "String_split (CHR '':'') [m1, m2] = [[m1, m2]]"
    using assms by (intro String_split_no_sep) (auto dest: digit_not_colon)
  ultimately have "String_split (CHR '':'') [h1, h2, CHR '':'', m1, m2] = [[h1, h2], [m1, m2]]"
    by simp
  then show ?thesis
    using digit_value_range [OF assms(1)] digit_value_range [OF assms(2)]
      digit_value_range [OF assms(3)] digit_value_range [OF assms(4)]
    by (simp add: parseMinutes_def Number_two_digits assms)
qed

lemma upcoming_sort_key:
  assumes "\<forall>task\<in>set ts. \<not> completed task \<longrightarrow> parseMinutes (time task) = Some (minutes task)"
  shows "upcoming ts = Some (take 3 (sort_key minutes (filter (\<lambda>task. \<not> completed task) ts)))"
proof -
  let ?pending = "filter (\<lambda>task. \<not> completed task) ts"
  let ?cmp = "\<lambda>a b. the (parseMinutes (time a)) - the (parseMinutes (time b))"
  from assms have p: "\<forall>task\<in>set ?pending. parseMinutes (time task) = Some (minutes task)" by simp
  then have "list_all (\<lambda>task. parseMinutes (time task) \<noteq> None) ?pending"
    by (simp add: list_all_iff)
  moreover from p have "\<forall>a\<in>set ?pending. \<forall>b\<in>set ?pending. (?cmp a b \<le> 0) = (minutes a \<le> minutes b)"
    by simp
  then have "Array_sort ?cmp ?pending = sort_key minutes ?pending"
    by (rule Array_sort_sort_key)
  ultimately show ?thesis by (simp add: upcoming_def Let_def)
qed

lemma catalog_minutes:
  "map (\<lambda>task. parseMinutes (time task)) defaultTasks
   = [Some 390, Some 435, Some 540, Some 750, Some 900, Some 1050, Some 1230]"
  by (simp add: defaultTasks_def parseMinutes_def Number_digits_def decimal_value_def
      is_digit_def digit_value_def)

text \<open>
  Claim C7. For every task list whose pending (incomplete) tasks have times that
  \<open>parseMinutes\<close> reads, with value \<open>minutes task\<close>, \<open>upcoming\<close> returns the first
  three of the pending tasks put in ascending order of their minutes by a stable sort: the
  ordered list has the same tasks as the pending ones, its minutes ascend, and tasks of
  equal minutes keep the order they have in the input. A time of two digits, a colon and
  two digits is read as hours times 60 plus minutes. For tasks at 09:00 (incomplete),
  06:30 (incomplete) and 07:15 (completed), in this order, the result is the 06:30 task
  followed by the 09:00 task.
\<close>

theorem upcoming_earliest_pending:
  "((\<forall>task\<in>set ts. \<not> completed task \<longrightarrow> parseMinutes (time task) = Some (minutes task))
     \<longrightarrow> (\<exists>ordered.
            upcoming ts = Some (take 3 ordered)
            \<and> ordered = sort_key minutes (filter (\<lambda>task. \<not> completed task) ts)
            \<and> mset ordered = mset (filter (\<lambda>task. \<not> completed task) ts)
            \<and> sorted (map minutes ordered)
            \<and> (\<forall>k. filter (\<lambda>task. minutes task = k) ordered
                   = filter (\<lambda>task. minutes task = k) (filter (\<lambda>task. \<not> completed task) ts))))
   \<and> (is_digit p \<and> is_digit q \<and> is_digit r \<and> is_digit s
     \<longrightarrow> parseMinutes [p, q, CHR '':'', r, s]
         = Some ((10 * digit_value p + digit_value q) * 60 + (10 * digit_value r + digit_value s)))
   \<and> (time a = ''09:00'' \<and> \<not> completed a \<and> time b = ''06:30'' \<and> \<not> completed b
      \<and> time c = ''07:15'' \<and> completed c
     \<longrightarrow> upcoming [a, b, c] = Some [b, a])"
proof (intro conjI impI)
  assume "\<forall>task\<in>set ts. \<not> completed task \<longrightarrow> parseMinutes (time task) = Some (minutes task)"
  then have "upcoming ts = Some (take 3 (sort_key minutes (filter (\<lambda>task. \<not> completed task) ts)))"
    by (rule upcoming_sort_key)
  then show "\<exists>ordered.
            upcoming ts = Some (take 3 ordered)
            \<and> ordered = sort_key minutes (filter (\<lambda>task. \<not> completed task) ts)
            \<and> mset ordered = mset (filter (\<lambda>task. \<not> completed task) ts)
            \<and> sorted (map minutes ordered)
            \<and> (\<forall>k. filter (\<lambda>task. minutes task = k) ordered
                   = filter (\<lambda>task. minutes task = k) (filter (\<lambda>task. \<not> completed task) ts))"
    by (simp add: sort_key_stable)
next
  assume "is_digit p \<and> is_digit q \<and> is_digit r \<and> is_digit s"
  then show "parseMinutes [p, q, CHR '':'', r, s]
         = Some ((10 * digit_value p + digit_value q) * 60 + (10 * digit_value r + digit_value s))"
    by (simp add: parseMinutes_HH_MM)
next
  assume h: "time a = ''09:00'' \<and> \<not> completed a \<and> time b = ''06:30'' \<and> \<not> completed b
      \<and> time c = ''07:15'' \<and> completed c"
  have pm: "parseMinutes ''09:00'' = Some 540" "parseMinutes ''06:30'' = Some 390"
    by (simp_all add: parseMinutes_def Number_digits_def decimal_value_def is_digit_def digit_value_def)
  from h pm have "\<forall>task\<in>set [a, b, c]. \<not> completed task \<longrightarrow>
      parseMinutes (time task) = Some (the (parseMinutes (time task)))"
    by simp
  from upcoming_sort_key [OF this] h pm show "upcoming [a, b, c] = Some [b, a]"
    by simp
qed

theorem upcoming_earliest_pending_witness:
  "list_all (\<lambda>task. parseMinutes (time task) = Some (the (parseMinutes (time task))))
      (toggleTask ''hydrate'' defaultTasks)
   \<and> upcoming (toggleTask ''hydrate'' defaultTasks)
       = Some [defaultTasks ! 1, defaultTasks ! 2, defaultTasks ! 3]
   \<and> is_digit (CHR ''0'') \<and> is_digit (CHR ''6'') \<and> is_digit (CHR ''3'')
   \<and> parseMinutes ''06:30'' = Some 390
   \<and> time (defaultTasks ! 2) = ''09:00'' \<and> \<not> completed (defaultTasks ! 2)
   \<and> time (defaultTasks ! 0) = ''06:30'' \<and> \<not> completed (defaultTasks ! 0)
   \<and> time ((defaultTasks ! 1)\<lparr>completed := True\<rparr>) = ''07:15''
   \<and> completed ((defaultTasks ! 1)\<lparr>completed := True\<rparr>)
   \<and> upcoming [defaultTasks ! 2, defaultTasks ! 0, (defaultTasks ! 1)\<lparr>completed := True\<rparr>]
       = Some [defaultTasks ! 0, defaultTasks ! 2]"
proof -
  let ?m = "\<lambda>task. the (parseMinutes (time task))"
  let ?ts = "toggleTask ''hydrate'' defaultTasks"
  have cov: "list_all (\<lambda>task. parseMinutes (time task) = Some (?m task)) ?ts"
    using catalog_minutes by (simp add: toggleTask_def defaultTasks_def)
  then have hyp: "\<forall>task\<in>set ?ts. \<not> completed task \<longrightarrow> parseMinutes (time task) = Some (?m task)"
    by (simp add: list_all_iff)
  have d: "is_digit (CHR ''0'')" "is_digit (CHR ''6'')" "is_digit (CHR ''3'')"
    by (simp_all add: is_digit_def)
  have ex: "time (defaultTasks ! 2) = ''09:00''" "\<not> completed (defaultTasks ! 2)"
    "time (defaultTasks ! 0) = ''06:30''" "\<not> completed (defaultTasks ! 0)"
    "time ((defaultTasks ! 1)\<lparr>completed := True\<rparr>) = ''07:15''"
    "completed ((defaultTasks ! 1)\<lparr>completed := True\<rparr>)"
    by (simp_all add: defaultTasks_def)
  note inst = upcoming_earliest_pending
    [where ts = ?ts and minutes = ?m
       and p = "CHR ''0''" and q = "CHR ''6''" and r = "CHR ''3''" and s = "CHR ''0''"
       and a = "defaultTasks ! 2" and b = "defaultTasks ! 0"
       and c = "(defaultTasks ! 1)\<lparr>completed := True\<rparr>"]
  from inst hyp
  have "upcoming ?ts = Some (take 3 (sort_key ?m (filter (\<lambda>task. \<not> completed task) ?ts)))"
    by blast
  moreover have "take 3 (sort_key ?m (filter (\<lambda>task. \<not> completed task) ?ts))
      = [defaultTasks ! 1, defaultTasks ! 2, defaultTasks ! 3]"
    using catalog_minutes by (simp add: toggleTask_def defaultTasks_def)
  ultimately have u: "upcoming ?ts = Some [defaultTasks ! 1, defaultTasks ! 2, defaultTasks ! 3]"
    by simp
  from inst d have p: "parseMinutes ''06:30'' = Some 390"
    by (simp add: digit_value_def)
  from inst ex have e: "upcoming [defaultTasks ! 2, defaultTasks ! 0, (defaultTasks ! 1)\<lparr>completed := True\<rparr>]
       = Some [defaultTasks ! 0, defaultTasks ! 2]"
    by blast
  from cov u d p ex e show ?thesis by simp
qed

subsection \<open>Completion rate\<close>

text \<open>
  The rounding to a double moves a positive value by at most its \<open>2^53\<close>-th part, so
  that the computed percentage is within \<open>2^-45\<close> of the exact one.
\<close>

lemma pow2_powi: "pow2 k = 2 powi k"
  by (simp add: pow2_def power_int_def inverse_eq_divide power_one_over)

lemma pow2_pos: "0 < pow2 k"
  by (simp add: pow2_powi)

lemma pow2_diff: "pow2 (a - b) = pow2 a / pow2 b"
  by (simp add: pow2_powi power_int_diff)

lemma pow2_nat: "0 \<le> k \<Longrightarrow> pow2 k = 2 ^ nat k"
  by (simp add: pow2_def)


lemma double_exponent_gt:
  assumes "0 < x"
  shows "x < pow2 (double_exponent x + 1)"
proof -
  obtain p q where pq: "quotient_of x = (p, q)" by (cases "quotient_of x")
  then have q: "0 < q" and x: "x = of_int p / of_int q"
    by (simp_all add: quotient_of_denom_pos quotient_of_div)
  with assms have p: "0 < p" by (simp add: zero_less_divide_iff)
  let ?k = "bitlen p - bitlen q"
  show ?thesis
  proof (cases "pow2 ?k \<le> x")
    case False
    with pq show ?thesis by (simp add: double_exponent_def)
  next
    case True
    have bp: "1 \<le> bitlen p" and bq: "1 \<le> bitlen q"
      using p q by (simp_all add: bitlen_alt_def)
    have "p < (2::int) ^ nat (bitlen p)" using bitlen_bounds [OF p] by simp
    then have "(of_int p :: rat) < of_int ((2::int) ^ nat (bitlen p))"
      by (simp only: of_int_less_iff)
    then have hi: "of_int p < pow2 (bitlen p)"
      using bp by (simp add: pow2_nat)
    have "(2::int) ^ nat (bitlen q - 1) \<le> q" using bitlen_bounds [OF q] by simp
    then have "(of_int ((2::int) ^ nat (bitlen q - 1)) :: rat) \<le> of_int q"
      by (simp only: of_int_le_iff)
    then have lo: "pow2 (bitlen q - 1) \<le> of_int q"
      using bq by (simp add: pow2_nat)
    have "x = of_int p / of_int q" by (rule x)
    also have "\<dots> < pow2 (bitlen p) / of_int q"
      using hi q by (simp add: divide_strict_right_mono)
    also have "\<dots> \<le> pow2 (bitlen p) / pow2 (bitlen q - 1)"
      using lo pow2_pos [of "bitlen q - 1"] pow2_pos [of "bitlen p"]
      by (intro divide_left_mono) simp_all
    also have "\<dots> = pow2 (?k + 1)"
      using pow2_diff [of "bitlen p" "bitlen q - 1"] by (simp add: algebra_simps)
    finally show ?thesis using True pq by (simp add: double_exponent_def)
  qed
qed

text \<open>The rounding on some values whose doubles are well known.\<close>

lemma to_double_examples:
  "to_double (1 / 10) = 3602879701896397 / 36028797018963968"
  "to_double (1 / 3) = 6004799503160661 / 18014398509481984"
  "to_double (23 / 40) = 2589569785738035 / 4503599627370496"
  "to_double (to_double (23 / 40) * 100) = 8092405580431359 / 140737488355328"
  "to_double (to_double (1 / 7) * 100) = 2010535547933257 / 140737488355328"
  by code_simp+









lemma completionRate_nonempty:
  "ts \<noteq> [] \<Longrightarrow> completionRate ts =
     Math_round (to_double (to_double (of_nat (length (filter completed ts)) / of_nat (length ts)) * 100))"
  by (simp add: completionRate_def Let_def)













text \<open>
  The bound on the length cannot go further without the condition on ties: with 23 of 40
  tasks completed, \<open>23 / 40\<close> is rounded to a double below \<open>0.575\<close>, its hundredfold
  to a double below \<open>57.5\<close>, and \<^verbatim>\<open>Math.round\<close> gives 57, while \<open>100 * 23 / 40 = 57.5\<close>
  rounds to 58.
\<close>

lemma completionRate_23_of_40:
  "completionRate (replicate 23 ((defaultTasks ! 0)\<lparr>completed := True\<rparr>)
                   @ replicate 17 (defaultTasks ! 0)) = 57
   \<and> Math_round (100 * of_nat 23 / of_nat 40) = 58"
proof -
  let ?ts = "replicate 23 ((defaultTasks ! 0)\<lparr>completed := True\<rparr>) @ replicate 17 (defaultTasks ! 0)"
  have c: "length (filter completed ?ts) = 23" by (simp add: defaultTasks_def)
  have n: "length ?ts = 40" by simp
  have r: "Math_round (to_double (to_double (of_nat 23 / of_nat 40) * 100)) = 57" by code_simp
  have ne: "?ts \<noteq> []" by simp
  have "completionRate ?ts = 57"
    unfolding completionRate_nonempty [OF ne] c n by (rule r)
  moreover have "Math_round (100 * of_nat 23 / of_nat 40) = 58" by code_simp
  ultimately show ?thesis by simp
qed

end
